theory Spec2Isabelle
  imports Main "HOL-Library.Char_ord" "HOL-Library.List_Lexorder"
begin

section \<open>nbscan: scanning notebooks for cells\<close>

text \<open>
  A shallow embedding of \<^verbatim>\<open>nbscan.py\<close>. The script has three parts: \<^verbatim>\<open>build_file_list\<close>
  (which files to scan), \<^verbatim>\<open>scan_files\<close> (the per-file, per-cell filters and the printing)
  and the main block that wires them together.

  Everything the script obtains from outside is a field of the record \<open>world\<close>: the file
  system (\<^verbatim>\<open>os.path.isfile\<close>, \<^verbatim>\<open>os.walk\<close>), the notebook reader (\<^verbatim>\<open>nbformat.read\<close>), the
  regular-expression engine (\<^verbatim>\<open>re.search\<close> and \<^verbatim>\<open>re.sub\<close>, both with \<^verbatim>\<open>re.IGNORECASE\<close>),
  \<^verbatim>\<open>random.sample\<close> and the line typed at the prompt. Standard output is a string that
  every printing function takes and returns extended. An exception is a value of type
  \<open>exc\<close>; a function that can raise returns \<open>exc + 'a\<close>.
\<close>

subsection \<open>Python values and library functions\<close>

datatype exc =
    SystemExit nat
  | ValueError
  | TypeError
  | EOFError
  | ReError string
  | NotJSONError string
  | UnicodeDecodeError string
  | OtherError string

definition nl :: string where
  "nl = [CHR 0x0A]"

definition esc :: string where
  "esc = [CHR 0x1B]"

text \<open>\<^verbatim>\<open>print(s)\<close>: the text and a line break are appended to standard output.\<close>

definition print_line :: "string \<Rightarrow> string \<Rightarrow> string" where
  "print_line out s = out @ s @ nl"

text \<open>Truthiness of the optional values that the script tests with a bare \<^verbatim>\<open>if x\<close>.\<close>

definition truthy_str :: "string option \<Rightarrow> bool" where
  "truthy_str p = (case p of None \<Rightarrow> False | Some s \<Rightarrow> s \<noteq> [])"

definition truthy_list :: "'a list option \<Rightarrow> bool" where
  "truthy_list p = (case p of None \<Rightarrow> False | Some xs \<Rightarrow> xs \<noteq> [])"

definition truthy_int :: "int option \<Rightarrow> bool" where
  "truthy_int p = (case p of None \<Rightarrow> False | Some n \<Rightarrow> n \<noteq> 0)"

text \<open>\<^verbatim>\<open>p in s\<close> on strings: \<open>p\<close> occurs in \<open>s\<close> as a contiguous substring.\<close>

fun contains :: "string \<Rightarrow> string \<Rightarrow> bool" where
  "contains p [] = (p = [])"
| "contains p (c # cs) = (take (length p) (c # cs) = p \<or> contains p cs)"

text \<open>\<^verbatim>\<open>s.endswith(suf)\<close>.\<close>

definition endswith :: "string \<Rightarrow> string \<Rightarrow> bool" where
  "endswith s suf = (length suf \<le> length s \<and> drop (length s - length suf) s = suf)"

text \<open>\<^verbatim>\<open>os.path.join(a, p)\<close> of posixpath, for two components.\<close>

definition path_join :: "string \<Rightarrow> string \<Rightarrow> string" where
  "path_join a p =
     (if take 1 p = ''/'' then p
      else if a = [] \<or> last a = CHR ''/'' then a @ p
      else a @ ''/'' @ p)"

text \<open>\<^verbatim>\<open>'{:1d}'.format(n)\<close> for a natural number: its decimal digits.\<close>

fun str_nat :: "nat \<Rightarrow> string" where
  "str_nat n =
     (if n < 10 then [char_of (48 + n)]
      else str_nat (n div 10) @ [char_of (48 + n mod 10)])"

declare str_nat.simps [simp del]

subsection \<open>The data\<close>

text \<open>
  A cell of a notebook: its \<^verbatim>\<open>cell_type\<close>, its \<^verbatim>\<open>source\<close>, and the entry \<^verbatim>\<open>nbgrader\<close> of its
  metadata when there is one (a dictionary from keys to strings).
\<close>

record cell =
  cell_type :: string
  source :: string
  nbgrader :: "(string \<rightharpoonup> string) option"

text \<open>The parsed command line, as \<^verbatim>\<open>init_api\<close> returns it.\<close>

record args =
  files :: "string list"
  dir :: "string list option"
  submitted :: "string list option"
  random_arg :: "int option"
  grep :: "string option"
  prompt :: bool
  id_arg :: "string option"
  code :: bool
  markdown :: bool
  tags :: bool
  nbformat :: int
  plain :: bool

text \<open>
  The outside world. \<open>walk w dn\<close> is the sequence of triples (directory path,
  subdirectory names, file names) that \<^verbatim>\<open>os.walk(dn)\<close> yields. \<open>re_search w p s\<close> is
  \<^verbatim>\<open>re.search(p, s, re.IGNORECASE)\<close>: the span of the first match, \<open>None\<close> when there is
  none, or the error raised for a pattern that does not compile. \<open>re_sub w p f s\<close> is
  \<^verbatim>\<open>re.sub(p, lambda m: f(m.group(0)), s, flags=re.IGNORECASE)\<close>. \<open>stdin w\<close> is the line
  \<^verbatim>\<open>input\<close> reads, \<open>None\<close> at end of file.

  \<open>random_sample w population k\<close> is \<^verbatim>\<open>random.sample(population, k)\<close> for a population that
  is a set, which is what \<^verbatim>\<open>build_file_list\<close> passes. What the library does with a set
  depends on its version: up to Python 3.10 it samples from the elements of the set, from
  Python 3.11 on it raises \<^verbatim>\<open>TypeError\<close> for every \<open>k\<close>, because the population is not a
  sequence.
\<close>

record world =
  isfile :: "string \<Rightarrow> bool"
  walk :: "string \<Rightarrow> (string \<times> string list \<times> string list) list"
  nb_read :: "string \<Rightarrow> int \<Rightarrow> exc + cell list"
  re_search :: "string \<Rightarrow> string \<Rightarrow> exc + (nat \<times> nat) option"
  re_sub :: "string \<Rightarrow> (string \<Rightarrow> string) \<Rightarrow> string \<Rightarrow> exc + string"
  random_sample :: "string set \<Rightarrow> int \<Rightarrow> exc + string list"
  stdin :: "string option"

subsection \<open>\<^verbatim>\<open>build_file_list\<close>\<close>

text \<open>
  \<^verbatim>\<open>filter_argv_files\<close>: the loop over \<^verbatim>\<open>args.files\<close>. The state is the set of files, standard
  output and the flag \<^verbatim>\<open>all_found\<close>.
\<close>

fun filter_argv_loop ::
  "world \<Rightarrow> string list \<Rightarrow> string set \<times> string \<times> bool \<Rightarrow> string set \<times> string \<times> bool" where
  "filter_argv_loop w [] st = st"
| "filter_argv_loop w (fn # fns) (fs, out, all_found) =
     (if isfile w fn then filter_argv_loop w fns (insert fn fs, out, all_found)
      else filter_argv_loop w fns (fs, print_line out (''No such file: '' @ fn), False))"

definition filter_argv_files ::
  "world \<Rightarrow> args \<Rightarrow> string set \<Rightarrow> string \<Rightarrow> string \<times> (exc + string set)" where
  "filter_argv_files w a fs out =
     (case filter_argv_loop w (files a) (fs, out, True) of
        (fs', out', all_found) \<Rightarrow>
          if \<not> all_found then (out', Inl (SystemExit 1)) else (out', Inr fs'))"

text \<open>
  \<^verbatim>\<open>add_files_in_dir\<close>: three nested loops. The innermost adds the notebooks of one directory,
  the middle one goes through the directories that the walk yields and skips those whose path
  contains \<^verbatim>\<open>'/.'\<close> or, when projects are given, none of the project names.
\<close>

fun add_fnames :: "string \<Rightarrow> string list \<Rightarrow> string set \<Rightarrow> string set" where
  "add_fnames path [] fs = fs"
| "add_fnames path (fn # fns) fs =
     (if endswith fn ''.ipynb'' then add_fnames path fns (insert (path_join path fn) fs)
      else add_fnames path fns fs)"

fun add_walked ::
  "string list option \<Rightarrow> (string \<times> string list \<times> string list) list \<Rightarrow> string set \<Rightarrow> string set"
  where
  "add_walked projects [] fs = fs"
| "add_walked projects ((path, ds, fnames) # rest) fs =
     (if contains ''/.'' path then add_walked projects rest fs
      else if truthy_list projects \<and> \<not> list_ex (\<lambda>p. contains p path) (the projects)
      then add_walked projects rest fs
      else add_walked projects rest (add_fnames path fnames fs))"

fun add_files_in_dir ::
  "world \<Rightarrow> string set \<Rightarrow> string list \<Rightarrow> string list option \<Rightarrow> string set" where
  "add_files_in_dir w fs [] projects = fs"
| "add_files_in_dir w fs (dn # dns) projects =
     add_files_in_dir w (add_walked projects (walk w dn) fs) dns projects"

definition build_file_list :: "world \<Rightarrow> args \<Rightarrow> string \<Rightarrow> string \<times> (exc + string list)" where
  "build_file_list w a out =
     (case filter_argv_files w a {} out of
        (out1, Inl e) \<Rightarrow> (out1, Inl e)
      | (out1, Inr fs1) \<Rightarrow>
          (let fs2 = (if truthy_list (dir a)
                      then add_files_in_dir w fs1 (the (dir a)) None else fs1);
               fs3 = (if truthy_list (submitted a)
                      then add_files_in_dir w fs2 [''submitted''] (submitted a) else fs2)
           in if fs3 = {} then (print_line out1 ''No files to scan'', Inl (SystemExit 1))
              else if truthy_int (random_arg a)
              then (case random_sample w fs3 (the (random_arg a)) of
                      Inl e \<Rightarrow> (out1, Inl e)
                    | Inr smp \<Rightarrow> (out1, Inr (sort smp)))
              else (out1, Inr (sorted_list_of_set fs3))))"

subsection \<open>\<^verbatim>\<open>scan_files\<close>: the filters on one cell\<close>

text \<open>
  \<^verbatim>\<open>tag = cell['metadata']['nbgrader'].get('grade_id') if 'nbgrader' in cell['metadata'] else None\<close>
\<close>

definition cell_tag :: "cell \<Rightarrow> string option" where
  "cell_tag c = (case nbgrader c of None \<Rightarrow> None | Some m \<Rightarrow> m ''grade_id'')"

text \<open>\<^verbatim>\<open>cell_type = 'code' if args.code else 'markdown' if args.markdown else None\<close>\<close>

definition wanted_cell_type :: "args \<Rightarrow> string option" where
  "wanted_cell_type a =
     (if code a then Some ''code'' else if markdown a then Some ''markdown'' else None)"

text \<open>
  The last statement of the loop body: what a cell that passed the filters adds to
  \<^verbatim>\<open>matches\<close>.
\<close>

definition append_match :: "args \<Rightarrow> cell \<Rightarrow> string list \<Rightarrow> string list" where
  "append_match a c matches =
     (if tags a
      then (case cell_tag c of None \<Rightarrow> matches | Some t \<Rightarrow> matches @ [t])
      else matches @ [source c])"

text \<open>
  The body of the loop over the cells. Each \<^verbatim>\<open>continue\<close> returns \<^verbatim>\<open>matches\<close> as it is;
  \<^verbatim>\<open>re.search\<close> is reached only behind the two tests before it, and its exception leaves
  the loop.
\<close>

definition cell_step ::
  "world \<Rightarrow> args \<Rightarrow> string option \<Rightarrow> cell \<Rightarrow> string list \<Rightarrow> exc + string list" where
  "cell_step w a pattern c matches =
     (let tag = cell_tag c; ct = wanted_cell_type a
      in if ct \<noteq> None \<and> cell_type c \<noteq> the ct then Inr matches
         else if truthy_str (id_arg a) \<and> tag \<noteq> id_arg a then Inr matches
         else if truthy_str pattern
         then (case re_search w (the pattern) (source c) of
                 Inl e \<Rightarrow> Inl e
               | Inr None \<Rightarrow> Inr matches
               | Inr (Some m) \<Rightarrow> Inr (append_match a c matches))
         else Inr (append_match a c matches))"

fun scan_cells ::
  "world \<Rightarrow> args \<Rightarrow> string option \<Rightarrow> cell list \<Rightarrow> string list \<Rightarrow> exc + string list" where
  "scan_cells w a pattern [] matches = Inr matches"
| "scan_cells w a pattern (c # cs) matches =
     (case cell_step w a pattern c matches of
        Inl e \<Rightarrow> Inl e
      | Inr matches' \<Rightarrow> scan_cells w a pattern cs matches')"

subsection \<open>\<^verbatim>\<open>scan_files\<close>: printing\<close>

text \<open>\<^verbatim>\<open>'\033[03{:1d}m{}\033[m'.format(cn, text)\<close>\<close>

definition highlight :: "string \<Rightarrow> nat \<Rightarrow> string" where
  "highlight text cn = esc @ ''[03'' @ str_nat cn @ ''m'' @ text @ esc @ ''[m''"

definition colorized :: "world \<Rightarrow> args \<Rightarrow> string option \<Rightarrow> string \<Rightarrow> exc + string" where
  "colorized w a pattern text =
     (if plain a \<or> \<not> truthy_str pattern then Inr text
      else re_sub w (the pattern) (\<lambda>m. highlight m 4) text)"

text \<open>\<^verbatim>\<open>print_cell_ids\<close>; \<^verbatim>\<open>print('  ', tag)\<close> puts a space between its two arguments.\<close>

fun print_tags :: "string list \<Rightarrow> string \<Rightarrow> string" where
  "print_tags [] out = out"
| "print_tags (tag # lst) out = print_tags lst (print_line out (''  '' @ '' '' @ tag))"

definition print_cell_ids :: "string \<Rightarrow> string list \<Rightarrow> string \<Rightarrow> string" where
  "print_cell_ids fn lst out = print_line (print_tags lst (print_line out fn)) []"

text \<open>
  \<^verbatim>\<open>print_hits\<close>: the loop over the sources, then the function. What was printed before an
  exception stays printed.
\<close>

fun print_sources ::
  "world \<Rightarrow> args \<Rightarrow> string option \<Rightarrow> string list \<Rightarrow> string \<Rightarrow> string \<times> (exc + unit)" where
  "print_sources w a pattern [] out = (out, Inr ())"
| "print_sources w a pattern (src # lst) out =
     (case colorized w a pattern src of
        Inl e \<Rightarrow> (out, Inl e)
      | Inr text \<Rightarrow>
          (let out1 = print_line out text;
               out2 = (if \<not> plain a then print_line out1 (highlight ''---------'' 1) else out1)
           in print_sources w a pattern lst out2))"

definition print_hits ::
  "world \<Rightarrow> args \<Rightarrow> string option \<Rightarrow> string \<Rightarrow> string list \<Rightarrow> string \<Rightarrow> string \<times> (exc + unit)"
  where
  "print_hits w a pattern fn lst out =
     (let out1 = (if \<not> plain a
                  then print_line (print_line out (highlight fn 1))
                         (highlight (replicate (length fn) CHR ''='') 1)
                  else out)
      in case print_sources w a pattern lst out1 of
           (out2, Inl e) \<Rightarrow> (out2, Inl e)
         | (out2, Inr u) \<Rightarrow> (print_line out2 [], Inr ()))"

subsection \<open>\<^verbatim>\<open>scan_files\<close>: the loop over the files\<close>

text \<open>
  The body of the loop for one file. Of the exceptions of \<^verbatim>\<open>nbformat.read\<close> only
  \<^verbatim>\<open>NotJSONError\<close> and \<^verbatim>\<open>UnicodeDecodeError\<close> are caught: \<^verbatim>\<open>print(e, fn)\<close>, then \<^verbatim>\<open>continue\<close>.
\<close>

definition scan_file ::
  "world \<Rightarrow> args \<Rightarrow> string option \<Rightarrow> string \<Rightarrow> string \<Rightarrow> string \<times> (exc + unit)" where
  "scan_file w a pattern fn out =
     (case nb_read w fn (nbformat a) of
        Inl (NotJSONError msg) \<Rightarrow> (print_line out (msg @ '' '' @ fn), Inr ())
      | Inl (UnicodeDecodeError msg) \<Rightarrow> (print_line out (msg @ '' '' @ fn), Inr ())
      | Inl e \<Rightarrow> (out, Inl e)
      | Inr cells \<Rightarrow>
          (case scan_cells w a pattern cells [] of
             Inl e \<Rightarrow> (out, Inl e)
           | Inr matches \<Rightarrow>
               if length matches > 0
               then (if tags a then (print_cell_ids fn matches out, Inr ())
                     else print_hits w a pattern fn matches out)
               else (out, Inr ())))"

fun scan_files ::
  "world \<Rightarrow> args \<Rightarrow> string option \<Rightarrow> string list \<Rightarrow> string \<Rightarrow> string \<times> (exc + unit)" where
  "scan_files w a pattern [] out = (out, Inr ())"
| "scan_files w a pattern (fn # fns) out =
     (case scan_file w a pattern fn out of
        (out', Inl e) \<Rightarrow> (out', Inl e)
      | (out', Inr u) \<Rightarrow> scan_files w a pattern fns out')"

subsection \<open>The main block\<close>

text \<open>
  \<^verbatim>\<open>args.grep or (args.prompt and pattern)\<close>: the value is \<^verbatim>\<open>args.grep\<close> when that is a
  non-empty string, else \<^verbatim>\<open>False\<close> (here \<open>None\<close>) without \<^verbatim>\<open>--prompt\<close>, else the line that
  was typed.
\<close>

definition effective_pattern :: "args \<Rightarrow> string \<Rightarrow> string option" where
  "effective_pattern a typed =
     (if truthy_str (grep a) then grep a else if prompt a then Some typed else None)"

text \<open>
  \<^verbatim>\<open>input('pattern: ')\<close> writes the prompt to standard output and returns the line read, or
  raises \<^verbatim>\<open>EOFError\<close>.
\<close>

definition read_pattern :: "world \<Rightarrow> args \<Rightarrow> string \<times> (exc + string)" where
  "read_pattern w a =
     (if prompt a
      then (case stdin w of None \<Rightarrow> (''pattern: '', Inl EOFError)
                          | Some l \<Rightarrow> (''pattern: '', Inr l))
      else ([], Inr []))"

definition main :: "world \<Rightarrow> args \<Rightarrow> string \<times> (exc + unit)" where
  "main w a =
     (case read_pattern w a of
        (out0, Inl e) \<Rightarrow> (out0, Inl e)
      | (out0, Inr typed) \<Rightarrow>
          (case build_file_list w a out0 of
             (out1, Inl e) \<Rightarrow> (out1, Inl e)
           | (out1, Inr lst) \<Rightarrow> scan_files w a (effective_pattern a typed) lst out1))"

text \<open>
  The exit status of the process: 0 when the script runs to its end, the argument of
  \<^verbatim>\<open>exit\<close>, and 1 for an exception nobody catches.
\<close>

definition exit_status :: "exc + unit \<Rightarrow> nat" where
  "exit_status r = (case r of Inr u \<Rightarrow> 0 | Inl (SystemExit n) \<Rightarrow> n | Inl e \<Rightarrow> 1)"

section \<open>Notions used to state the results\<close>

subsection \<open>The files that \<^verbatim>\<open>build_file_list\<close> collects\<close>

text \<open>
  The notebooks that a walk contributes: for every yielded directory whose path does not
  contain \<^verbatim>\<open>'/.'\<close> and, when projects are given, contains one of the project names, the
  joined paths of its files that end in \<^verbatim>\<open>.ipynb\<close>.
\<close>

definition walked_hits ::
  "string list option \<Rightarrow> (string \<times> string list \<times> string list) list \<Rightarrow> string set" where
  "walked_hits projects trs =
     set [path_join path fn.
            (path, ds, fnames) \<leftarrow> trs,
            \<not> contains ''/.'' path,
            truthy_list projects \<longrightarrow> list_ex (\<lambda>p. contains p path) (the projects),
            fn \<leftarrow> fnames,
            endswith fn ''.ipynb'']"

text \<open>The three sources of files, and their union.\<close>

definition explicit_files :: "world \<Rightarrow> args \<Rightarrow> string set" where
  "explicit_files w a = {fn \<in> set (files a). isfile w fn}"

definition dir_files :: "world \<Rightarrow> args \<Rightarrow> string set" where
  "dir_files w a =
     (case dir a of None \<Rightarrow> {} | Some dns \<Rightarrow> (\<Union>dn \<in> set dns. walked_hits None (walk w dn)))"

definition submitted_files :: "world \<Rightarrow> args \<Rightarrow> string set" where
  "submitted_files w a =
     (if truthy_list (submitted a) then walked_hits (submitted a) (walk w ''submitted'') else {})"

definition file_union :: "world \<Rightarrow> args \<Rightarrow> string set" where
  "file_union w a = explicit_files w a \<union> dir_files w a \<union> submitted_files w a"

subsection \<open>The file list as the specification words it\<close>

text \<open>
  The components of a path, separated by \<^verbatim>\<open>/\<close>, and the specification's test for a
  hidden directory: some component of the directory path begins with a period.
\<close>

fun split_slash :: "string \<Rightarrow> string list" where
  "split_slash [] = [[]]"
| "split_slash (c # cs) =
     (if c = CHR ''/'' then [] # split_slash cs
      else (case split_slash cs of [] \<Rightarrow> [[c]] | s # ss \<Rightarrow> (c # s) # ss))"

definition hidden_segment :: "string \<Rightarrow> bool" where
  "hidden_segment path = list_ex (\<lambda>seg. take 1 seg = ''.'') (split_slash path)"



subsection \<open>The file list when no walked path begins with a period\<close>






subsection \<open>The filters on a cell\<close>

text \<open>
  The three tests of the loop body, as the script makes them, as predicates on a cell:
  \<^verbatim>\<open>cell_type and ...\<close>, \<^verbatim>\<open>args.id and ...\<close>, \<^verbatim>\<open>pattern and ...\<close>. With the script's
  truthiness, a test whose option is absent or is the empty string passes every cell.
  \<open>search_raises\<close> says that \<^verbatim>\<open>re.search\<close> raises on the cell's source.
\<close>

definition type_ok :: "args \<Rightarrow> cell \<Rightarrow> bool" where
  "type_ok a c = (wanted_cell_type a = None \<or> wanted_cell_type a = Some (cell_type c))"

definition tag_ok :: "args \<Rightarrow> cell \<Rightarrow> bool" where
  "tag_ok a c = (\<not> truthy_str (id_arg a) \<or> cell_tag c = id_arg a)"

definition pattern_ok :: "world \<Rightarrow> string option \<Rightarrow> cell \<Rightarrow> bool" where
  "pattern_ok w pattern c =
     (\<not> truthy_str pattern \<or>
      (case re_search w (the pattern) (source c) of Inr (Some m) \<Rightarrow> True | _ \<Rightarrow> False))"

definition search_raises :: "world \<Rightarrow> string option \<Rightarrow> cell \<Rightarrow> bool" where
  "search_raises w pattern c =
     (truthy_str pattern \<and>
      (case re_search w (the pattern) (source c) of Inl e \<Rightarrow> True | Inr m \<Rightarrow> False))"

text \<open>
  The tag filter and the pattern filter as the specification words them: when a required
  tag is configured, the tag of the cell equals it; when a pattern is configured, the search
  finds a match in the source of the cell. An option given as the empty string is
  configured.
\<close>

definition spec_tag_ok :: "args \<Rightarrow> cell \<Rightarrow> bool" where
  "spec_tag_ok a c = (case id_arg a of None \<Rightarrow> True | Some t \<Rightarrow> cell_tag c = Some t)"

definition spec_pattern_ok :: "world \<Rightarrow> string option \<Rightarrow> cell \<Rightarrow> bool" where
  "spec_pattern_ok w pattern c =
     (case pattern of None \<Rightarrow> True
      | Some p \<Rightarrow> (case re_search w p (source c) of Inr (Some m) \<Rightarrow> True | _ \<Rightarrow> False))"

text \<open>
  The cells that pass the script's three tests, in their order, and what a list of cells
  contributes.
\<close>

definition retained :: "world \<Rightarrow> args \<Rightarrow> string option \<Rightarrow> cell list \<Rightarrow> cell list" where
  "retained w a pattern cells =
     filter (\<lambda>c. type_ok a c \<and> tag_ok a c \<and> pattern_ok w pattern c) cells"

definition matches_of :: "args \<Rightarrow> cell list \<Rightarrow> string list" where
  "matches_of a cs = (if tags a then List.map_filter cell_tag cs else map source cs)"

subsection \<open>Output\<close>

text \<open>
  The specification's plain rendering: the sources with a blank line between two
  consecutive ones.
\<close>

fun blank_line_separated :: "string list \<Rightarrow> string" where
  "blank_line_separated [] = []"
| "blank_line_separated [s] = s @ nl"
| "blank_line_separated (s # t # lst) = s @ nl @ nl @ blank_line_separated (t # lst)"

text \<open>
  The exceptions of the reader that the loop over the files catches, the text that
  \<^verbatim>\<open>print(e, fn)\<close> shows for an exception, and the lines printed for the missing explicit
  files.
\<close>

definition handled :: "exc \<Rightarrow> bool" where
  "handled e = (case e of NotJSONError msg \<Rightarrow> True | UnicodeDecodeError msg \<Rightarrow> True | _ \<Rightarrow> False)"

definition exc_text :: "exc \<Rightarrow> string" where
  "exc_text e = (case e of NotJSONError msg \<Rightarrow> msg | UnicodeDecodeError msg \<Rightarrow> msg
                 | ReError msg \<Rightarrow> msg | OtherError msg \<Rightarrow> msg | _ \<Rightarrow> [])"

definition missing_report :: "world \<Rightarrow> args \<Rightarrow> string" where
  "missing_report w a =
     concat (map (\<lambda>fn. ''No such file: '' @ fn @ nl) (filter (\<lambda>fn. \<not> isfile w fn) (files a)))"

text \<open>
  A file is scanned without an uncaught exception when reading it fails in one of the two
  handled ways, or when it is read and neither the search over its cells nor the
  highlighting of its matches raises. (Only \<^verbatim>\<open>re.search\<close> and \<^verbatim>\<open>re.sub\<close> can raise there, and
  the tags are printed as they are.)
\<close>

definition prints_clean :: "world \<Rightarrow> args \<Rightarrow> string option \<Rightarrow> string list \<Rightarrow> bool" where
  "prints_clean w a pattern lst =
     list_all (\<lambda>src. case colorized w a pattern src of Inl e \<Rightarrow> False | Inr text \<Rightarrow> True) lst"

definition scans_clean :: "world \<Rightarrow> args \<Rightarrow> string option \<Rightarrow> string \<Rightarrow> bool" where
  "scans_clean w a pattern fn =
     (case nb_read w fn (nbformat a) of
        Inl e \<Rightarrow> handled e
      | Inr cells \<Rightarrow>
          (case scan_cells w a pattern cells [] of
             Inl e \<Rightarrow> False
           | Inr matches \<Rightarrow> tags a \<or> prints_clean w a pattern matches))"

section \<open>A sample world\<close>

text \<open>
  Concrete inputs on which the results below are evaluated. The two cells are those of the
  specification's example. The file system has one explicit notebook, a directory \<^verbatim>\<open>nb\<close>
  with a checkpoint directory inside, and two submissions. The notebook \<^verbatim>\<open>nb/x.ipynb\<close> is
  not valid JSON. The regular-expression engine of the sample world knows the empty pattern
  and the pattern \<^verbatim>\<open>^#\<close>, and its \<^verbatim>\<open>random.sample\<close> is the one of Python 3.11: it refuses a set.
\<close>

definition no_args :: args where
  "no_args = \<lparr>files = [], dir = None, submitted = None, random_arg = None, grep = None,
     prompt = False, id_arg = None, code = False, markdown = False, tags = False,
     nbformat = 4, plain = False\<rparr>"

definition q1_cell :: cell where
  "q1_cell = \<lparr>cell_type = ''code'', source = ''def f(): pass'',
     nbgrader = Some [''grade_id'' \<mapsto> ''q1'']\<rparr>"

definition md_cell :: cell where
  "md_cell = \<lparr>cell_type = ''markdown'', source = ''# Q1'', nbgrader = None\<rparr>"

definition demo_world :: world where
  "demo_world = \<lparr>
     isfile = (\<lambda>fn. fn = ''a.ipynb''),
     walk = (\<lambda>dn.
       if dn = ''nb'' then
         [(''nb'', [''.ipynb_checkpoints''], [''x.ipynb'', ''readme.txt'']),
          (''nb/.ipynb_checkpoints'', [], [''x-checkpoint.ipynb''])]
       else if dn = ''submitted'' then
         [(''submitted'', [''harry'', ''ron''], []),
          (''submitted/harry'', [''hello''], []),
          (''submitted/harry/hello'', [], [''hello.ipynb'']),
          (''submitted/ron'', [''oop''], []),
          (''submitted/ron/oop'', [], [''oop.ipynb''])]
       else []),
     nb_read = (\<lambda>fn v.
       if fn = ''a.ipynb'' then Inr [q1_cell, md_cell]
       else if fn = ''nb/x.ipynb'' then Inl (NotJSONError ''Notebook does not appear to be JSON'')
       else if fn = ''submitted/harry/hello/hello.ipynb'' then Inr []
       else Inl (OtherError ''FileNotFoundError'')),
     re_search = (\<lambda>p s.
       if p = [] then Inr (Some (0, 0))
       else if p = ''^#'' then Inr (if take 1 s = ''#'' then Some (0, 1) else None)
       else Inl (ReError p)),
     re_sub = (\<lambda>p f s.
       if p = ''^#'' then Inr (if take 1 s = ''#'' then f ''#'' @ drop 1 s else s)
       else Inl (ReError p)),
     random_sample = (\<lambda>population k. Inl TypeError),
     stdin = Some []\<rparr>"


definition demo_args :: args where
  "demo_args = no_args\<lparr>files := [''a.ipynb''], dir := Some [''nb''], submitted := Some [''hello'']\<rparr>"



section \<open>Properties of the functions\<close>

text \<open>
  The loops are characterised by induction: each one adds to its accumulator exactly the
  set (or the text) that its closed form describes. \<open>contains\<close> and \<open>endswith\<close> are the
  substring and suffix relations, and the specification's hidden-segment test differs from
  the script's \<^verbatim>\<open>'/.' in path\<close> exactly on the first component of the path
  (\<open>hidden_segment_iff\<close>).
\<close>

lemma contains_iff: "contains p s \<longleftrightarrow> (\<exists>u v. s = u @ p @ v)"
proof (induction s)
  case Nil
  then show ?case by auto
next
  case (Cons c cs)
  have "take (length p) (c # cs) = p \<longleftrightarrow> (\<exists>v. c # cs = p @ v)"
    by (metis append_eq_conv_conj append_take_drop_id)
  moreover have "(\<exists>u v. c # cs = u @ p @ v) \<longleftrightarrow> (\<exists>v. c # cs = p @ v) \<or> (\<exists>u v. cs = u @ p @ v)"
    apply (rule iffI)
     apply (metis append_eq_Cons_conv append_Nil)
    apply (metis append_Cons append_Nil)
    done
  ultimately show ?case using Cons.IH by simp
qed

lemma endswith_iff: "endswith s suf \<longleftrightarrow> (\<exists>u. s = u @ suf)"
  unfolding endswith_def
  by (metis append_eq_conv_conj append_take_drop_id diff_add_inverse2 length_append le_add2 length_drop)

lemma filter_argv_loop_eq:
  "filter_argv_loop w fns (fs, out, ok) =
     (fs \<union> {fn \<in> set fns. isfile w fn},
      out @ concat (map (\<lambda>fn. ''No such file: '' @ fn @ nl) (filter (\<lambda>fn. \<not> isfile w fn) fns)),
      ok \<and> list_all (isfile w) fns)"
  by (induction fns arbitrary: fs out ok) (auto simp: print_line_def)

lemma split_slash_nonempty: "split_slash s \<noteq> []"
  by (induction s) (auto split: list.splits)

lemma hidden_tail: "list_ex (\<lambda>seg. take 1 seg = ''.'') (tl (split_slash s)) = contains ''/.'' s"
proof (induction s)
  case Nil
  show ?case by simp
next
  case (Cons c cs)
  obtain x xs where sp: "split_slash cs = x # xs"
    using split_slash_nonempty [of cs] by (cases "split_slash cs") auto
  have hd: "(take 1 x = ''.'') = (take 1 cs = ''.'')"
    using sp by (cases cs) (auto split: if_splits list.splits)
  show ?case
  proof (cases "c = CHR ''/''")
    case True
    then show ?thesis using Cons.IH sp hd by (cases cs) auto
  next
    case False
    then show ?thesis using Cons.IH sp by auto
  qed
qed

lemma hidden_segment_iff: "hidden_segment path \<longleftrightarrow> take 1 path = ''.'' \<or> contains ''/.'' path"
proof -
  obtain x xs where sp: "split_slash path = x # xs"
    using split_slash_nonempty [of path] by (cases "split_slash path") auto
  have hd: "(take 1 x = ''.'') = (take 1 path = ''.'')"
    using sp by (cases path) (auto split: if_splits list.splits)
  have "list_ex (\<lambda>seg. take 1 seg = ''.'') xs = contains ''/.'' path"
    using hidden_tail [of path] sp by simp
  then show ?thesis using sp hd by (simp add: hidden_segment_def)
qed

lemma add_fnames_list:
  "add_fnames path fns fs = fs \<union> set [path_join path fn. fn \<leftarrow> fns, endswith fn ''.ipynb'']"
  by (induction fns arbitrary: fs) auto

lemma add_walked_eq: "add_walked projects trs fs = fs \<union> walked_hits projects trs"
proof (induction projects trs fs rule: add_walked.induct)
  case (1 projects fs)
  show ?case by (simp add: walked_hits_def)
next
  case (2 projects path ds fnames rest fs)
  have step: "walked_hits projects ((path, ds, fnames) # rest) =
      (if contains ''/.'' path \<or> (truthy_list projects \<and> \<not> list_ex (\<lambda>p. contains p path) (the projects))
       then {} else set [path_join path fn. fn \<leftarrow> fnames, endswith fn ''.ipynb''])
      \<union> walked_hits projects rest"
    by (auto simp: walked_hits_def)
  show ?case using 2 by (simp add: step add_fnames_list Un_assoc)
qed


lemma add_files_in_dir_eq:
  "add_files_in_dir w fs dns projects = fs \<union> (\<Union>dn \<in> set dns. walked_hits projects (walk w dn))"
  by (induction dns arbitrary: fs) (auto simp: add_walked_eq)


lemma build_file_list_set:
  assumes "list_all (isfile w) (files a)"
  shows "build_file_list w a out =
     (if file_union w a = {} then (print_line out ''No files to scan'', Inl (SystemExit 1))
      else if truthy_int (random_arg a)
      then (case random_sample w (file_union w a) (the (random_arg a)) of
              Inl e \<Rightarrow> (out, Inl e) | Inr smp \<Rightarrow> (out, Inr (sort smp)))
      else (out, Inr (sorted_list_of_set (file_union w a))))"
proof -
  have f: "filter (\<lambda>fn. \<not> isfile w fn) (files a) = []"
    using assms by (simp add: list_all_iff)
  have 1: "filter_argv_files w a {} out = (out, Inr (explicit_files w a))"
    using assms by (simp add: filter_argv_files_def filter_argv_loop_eq f explicit_files_def)
  have 2: "(if truthy_list (dir a) then add_files_in_dir w (explicit_files w a) (the (dir a)) None
            else explicit_files w a) = explicit_files w a \<union> dir_files w a"
    by (auto simp: add_files_in_dir_eq dir_files_def truthy_list_def split: option.splits)
  have 3: "(if truthy_list (submitted a)
            then add_files_in_dir w (explicit_files w a \<union> dir_files w a) [''submitted''] (submitted a)
            else explicit_files w a \<union> dir_files w a) = file_union w a"
    by (auto simp: add_files_in_dir_eq submitted_files_def file_union_def)
  show ?thesis
    unfolding build_file_list_def 1 by (simp only: prod.case sum.case Let_def 2 3)
qed

lemma demo_args_sel:
  "files demo_args = [''a.ipynb'']" "dir demo_args = Some [''nb'']"
  "submitted demo_args = Some [''hello'']" "random_arg demo_args = None"
  by (simp_all add: demo_args_def no_args_def)

lemma demo_world_sel:
  "isfile demo_world fn = (fn = ''a.ipynb'')"
  "walk demo_world ''nb'' =
         [(''nb'', [''.ipynb_checkpoints''], [''x.ipynb'', ''readme.txt'']),
          (''nb/.ipynb_checkpoints'', [], [''x-checkpoint.ipynb''])]"
  "walk demo_world ''submitted'' =
         [(''submitted'', [''harry'', ''ron''], []),
          (''submitted/harry'', [''hello''], []),
          (''submitted/harry/hello'', [], [''hello.ipynb'']),
          (''submitted/ron'', [''oop''], []),
          (''submitted/ron/oop'', [], [''oop.ipynb''])]"
  by (simp_all add: demo_world_def)




text \<open>
  Where a walked path does begin with a period, the script's test and the specification's
  part: the files of a root \<^verbatim>\<open>.sync\<close> are collected, those of \<^verbatim>\<open>x/.sync\<close> are not.
\<close>

lemma hidden_root_walk:
  "add_walked None [(''.sync'', [], [''a.ipynb''])] {} = {''.sync/a.ipynb''}"
  "add_walked None [(''x/.sync'', [], [''a.ipynb''])] {} = {}"
  "hidden_segment ''.sync''" "hidden_segment ''x/.sync''"
  by (simp_all add: hidden_segment_iff endswith_def path_join_def truthy_list_def)





lemma append_match_eq: "append_match a c ms = ms @ matches_of a [c]"
  by (simp add: append_match_def matches_of_def List.map_filter_def split: option.splits)

lemma matches_of_append: "matches_of a (xs @ ys) = matches_of a xs @ matches_of a ys"
  by (simp add: matches_of_def List.map_filter_def)

lemma matches_of_Nil: "matches_of a [] = []"
  by (simp add: matches_of_def List.map_filter_def)

lemma cell_step_reject_type: "\<not> type_ok a c \<Longrightarrow> cell_step w a pattern c ms = Inr ms"
  by (auto simp: cell_step_def type_ok_def Let_def)

lemma cell_step_reject_tag: "\<not> tag_ok a c \<Longrightarrow> cell_step w a pattern c ms = Inr ms"
  by (auto simp: cell_step_def tag_ok_def Let_def)

lemma cell_step_pattern:
  "type_ok a c \<Longrightarrow> tag_ok a c \<Longrightarrow> \<not> search_raises w pattern c \<Longrightarrow>
   cell_step w a pattern c ms =
     Inr (if pattern_ok w pattern c then append_match a c ms else ms)"
  by (auto simp: cell_step_def type_ok_def tag_ok_def pattern_ok_def search_raises_def Let_def
      split: sum.splits option.splits)

lemma cell_step_eq:
  assumes "type_ok a c \<and> tag_ok a c \<longrightarrow> \<not> search_raises w pattern c"
  shows "cell_step w a pattern c ms = Inr (ms @ matches_of a (retained w a pattern [c]))"
proof (cases "type_ok a c \<and> tag_ok a c")
  case True
  then show ?thesis using assms
    by (simp add: cell_step_pattern retained_def append_match_eq matches_of_Nil)
next
  case False
  then show ?thesis
    using cell_step_reject_type [of a c w pattern ms] cell_step_reject_tag [of a c w pattern ms]
    by (auto simp: retained_def matches_of_Nil)
qed

lemma scan_cells_eq:
  assumes "\<forall>c \<in> set cells. type_ok a c \<and> tag_ok a c \<longrightarrow> \<not> search_raises w pattern c"
  shows "scan_cells w a pattern cells ms = Inr (ms @ matches_of a (retained w a pattern cells))"
  using assms
proof (induction cells arbitrary: ms)
  case Nil
  show ?case by (simp add: retained_def matches_of_Nil)
next
  case (Cons c cs)
  have r: "retained w a pattern (c # cs) = retained w a pattern [c] @ retained w a pattern cs"
    by (simp add: retained_def)
  show ?case using Cons by (simp add: cell_step_eq r matches_of_append)
qed

lemma no_metadata_no_tag: "nbgrader c = None \<Longrightarrow> cell_tag c = None"
  by (simp add: cell_tag_def)

lemma print_sources_plain:
  "plain a \<Longrightarrow> print_sources w a pattern lst out = (out @ concat (map (\<lambda>s. s @ nl) lst), Inr ())"
  by (induction lst arbitrary: out) (simp_all add: colorized_def print_line_def)

lemma print_hits_plain:
  "plain a \<Longrightarrow> print_hits w a pattern fn lst out = (out @ concat (map (\<lambda>s. s @ nl) lst) @ nl, Inr ())"
  by (simp add: print_hits_def print_sources_plain print_line_def)

lemma wanted_cell_type_plain: "wanted_cell_type (a\<lparr>plain := b\<rparr>) = wanted_cell_type a"
  by (simp add: wanted_cell_type_def)

lemma append_match_plain: "append_match (a\<lparr>plain := b\<rparr>) c ms = append_match a c ms"
  by (simp add: append_match_def)

lemma cell_step_plain: "cell_step w (a\<lparr>plain := b\<rparr>) pattern c ms = cell_step w a pattern c ms"
  unfolding cell_step_def wanted_cell_type_plain append_match_plain Let_def by auto

lemma scan_cells_plain: "scan_cells w (a\<lparr>plain := b\<rparr>) pattern cells ms = scan_cells w a pattern cells ms"
  by (induction cells arbitrary: ms) (simp_all add: cell_step_plain split: sum.splits)

lemma scan_file_handled:
  "nb_read w fn (nbformat a) = Inl e \<Longrightarrow> handled e \<Longrightarrow>
     scan_file w a pattern fn out = (out @ exc_text e @ '' '' @ fn @ nl, Inr ())"
  by (cases e) (simp_all add: scan_file_def handled_def exc_text_def print_line_def)

lemma scan_file_unhandled:
  "nb_read w fn (nbformat a) = Inl e \<Longrightarrow> \<not> handled e \<Longrightarrow>
     scan_file w a pattern fn out = (out, Inl e)"
  by (cases e) (simp_all add: scan_file_def handled_def)

lemma print_sources_clean:
  "prints_clean w a pattern lst \<Longrightarrow> snd (print_sources w a pattern lst out) = Inr ()"
  by (induction lst arbitrary: out) (auto simp: prints_clean_def Let_def split: sum.splits)

lemma print_hits_clean:
  assumes "prints_clean w a pattern lst"
  shows "snd (print_hits w a pattern fn lst out) = Inr ()"
proof -
  define out1 where "out1 =
      (if \<not> plain a
       then print_line (print_line out (highlight fn 1))
              (highlight (replicate (length fn) CHR ''='') 1)
       else out)"
  have "snd (print_sources w a pattern lst out1) = Inr ()"
    using assms by (rule print_sources_clean)
  then obtain out2 where "print_sources w a pattern lst out1 = (out2, Inr ())"
    by (cases "print_sources w a pattern lst out1") auto
  then show ?thesis
    unfolding print_hits_def Let_def out1_def by simp
qed

lemma scan_file_clean:
  assumes "scans_clean w a pattern fn"
  shows "snd (scan_file w a pattern fn out) = Inr ()"
proof (cases "nb_read w fn (nbformat a)")
  case (Inl e)
  then have "handled e" using assms by (simp add: scans_clean_def)
  then show ?thesis by (simp add: scan_file_handled [OF Inl])
next
  case (Inr cells)
  then obtain matches where m: "scan_cells w a pattern cells [] = Inr matches"
      and p: "tags a \<or> prints_clean w a pattern matches"
    using assms by (auto simp: scans_clean_def split: sum.splits)
  show ?thesis
  proof (cases "tags a")
    case True
    then show ?thesis by (simp add: scan_file_def Inr m)
  next
    case False
    then have "prints_clean w a pattern matches" using p by simp
    then show ?thesis using False by (simp add: scan_file_def Inr m print_hits_clean)
  qed
qed

lemma scan_files_clean:
  "\<forall>f \<in> set fns. scans_clean w a pattern f \<Longrightarrow> snd (scan_files w a pattern fns out) = Inr ()"
proof (induction fns arbitrary: out)
  case Nil
  show ?case by simp
next
  case (Cons fn fns)
  have "snd (scan_file w a pattern fn out) = Inr ()"
    using Cons.prems by (simp add: scan_file_clean)
  then obtain out' where "scan_file w a pattern fn out = (out', Inr ())"
    by (cases "scan_file w a pattern fn out") auto
  then show ?case using Cons by simp
qed

lemma build_file_list_missing:
  assumes "\<exists>fn \<in> set (files a). \<not> isfile w fn"
  shows "build_file_list w a out = (out @ missing_report w a, Inl (SystemExit 1))"
proof -
  have "\<not> list_all (isfile w) (files a)" using assms by (simp add: list_all_iff)
  then show ?thesis
    by (simp add: build_file_list_def filter_argv_files_def filter_argv_loop_eq missing_report_def)
qed

lemma read_pattern_cases:
  "prompt a \<longrightarrow> stdin w \<noteq> None \<Longrightarrow> \<exists>out0 typed. read_pattern w a = (out0, Inr typed)"
  by (auto simp: read_pattern_def split: option.splits)

lemma main_build_fails:
  assumes "prompt a \<longrightarrow> stdin w \<noteq> None"
    and "\<And>out. build_file_list w a out = (out @ msg, Inl e)"
  shows "main w a = (fst (read_pattern w a) @ msg, Inl e)"
proof -
  obtain out0 typed where rp: "read_pattern w a = (out0, Inr typed)"
    using read_pattern_cases [OF assms(1)] by blast
  show ?thesis by (simp add: main_def rp assms(2))
qed

lemma demo_world_io:
  "nb_read demo_world ''a.ipynb'' v = Inr [q1_cell, md_cell]"
  "nb_read demo_world ''nb/x.ipynb'' v = Inl (NotJSONError ''Notebook does not appear to be JSON'')"
  "nb_read demo_world ''zzz.ipynb'' v = Inl (OtherError ''FileNotFoundError'')"
  "nb_read demo_world ''submitted/harry/hello/hello.ipynb'' v = Inr []"
  "re_search demo_world ''^#'' s = Inr (if take 1 s = ''#'' then Some (0, 1) else None)"
  "re_search demo_world [] s = Inr (Some (0, 0))"
  "stdin demo_world = Some []"
  "walk demo_world ''empty'' = []"
  by (simp_all add: demo_world_def)

lemma no_args_sel:
  "files no_args = []" "dir no_args = None" "submitted no_args = None" "random_arg no_args = None"
  "grep no_args = None" "prompt no_args = False" "id_arg no_args = None" "code no_args = False"
  "markdown no_args = False" "tags no_args = False" "nbformat no_args = 4" "plain no_args = False"
  by (simp_all add: no_args_def)

lemma cells_sel:
  "cell_type q1_cell = ''code''" "source q1_cell = ''def f(): pass''" "cell_tag q1_cell = Some ''q1''"
  "cell_type md_cell = ''markdown''" "source md_cell = ''# Q1''" "cell_tag md_cell = None"
  "nbgrader md_cell = None"
  by (simp_all add: q1_cell_def md_cell_def cell_tag_def)

lemmas pred_defs = type_ok_def tag_ok_def pattern_ok_def search_raises_def retained_def
  matches_of_def wanted_cell_type_def truthy_str_def List.map_filter_def

section \<open>The claims\<close>

subsection \<open>C1: the final file list\<close>




subsection \<open>C2: the filters on the cells\<close>

text \<open>
  C2, as amended. When the value of \<^verbatim>\<open>--id\<close>, if one is given, is not the empty string, the
  loop over the cells returns the contributions of exactly the cells that pass the type
  filter, the tag filter and the pattern filter, in document order. The search is reached
  last: a cell that fails the type filter or the tag filter leaves \<^verbatim>\<open>matches\<close> as it is
  whatever \<^verbatim>\<open>re.search\<close> would do, so the hypothesis asks only that the search does not raise
  on the cells that passed the first two filters. A cell without \<^verbatim>\<open>nbgrader\<close> metadata has no
  tag and fails the tag filter whenever \<^verbatim>\<open>--id\<close> is given; a cell with the metadata passes
  it exactly when its \<^verbatim>\<open>grade_id\<close> is the given one. A cell that reached the pattern filter
  is rejected when the search over its source finds nothing and retained when the search
  finds a match anywhere. (The regular-expression engine is the library's; of it the
  theorem assumes that the empty pattern, when that is the pattern, is found in every
  source.)
\<close>

theorem cell_filter_pipeline:
  assumes "id_arg a \<noteq> Some []"
    and "pattern = Some [] \<longrightarrow>
           (\<forall>c \<in> set cells. \<exists>m. re_search w [] (source c) = Inr (Some m))"
    and "\<forall>c \<in> set cells. type_ok a c \<and> spec_tag_ok a c \<longrightarrow> \<not> search_raises w pattern c"
  shows "scan_cells w a pattern cells [] =
           Inr (matches_of a
                  (filter (\<lambda>c. type_ok a c \<and> spec_tag_ok a c \<and> spec_pattern_ok w pattern c) cells))
       \<and> (\<forall>c ms. \<not> type_ok a c \<longrightarrow> cell_step w a pattern c ms = Inr ms)
       \<and> (\<forall>c ms. \<not> spec_tag_ok a c \<longrightarrow> cell_step w a pattern c ms = Inr ms)
       \<and> (\<forall>c. id_arg a \<noteq> None \<and> nbgrader c = None \<longrightarrow> \<not> spec_tag_ok a c)
       \<and> (\<forall>c m t. id_arg a = Some t \<and> nbgrader c = Some m
              \<longrightarrow> spec_tag_ok a c = (m ''grade_id'' = Some t))
       \<and> (\<forall>c \<in> set cells. \<forall>ms p. pattern = Some p \<and> type_ok a c \<and> spec_tag_ok a c \<and>
              re_search w p (source c) = Inr None
              \<longrightarrow> cell_step w a pattern c ms = Inr ms)
       \<and> (\<forall>c ms p m. pattern = Some p \<and> type_ok a c \<and> spec_tag_ok a c \<and>
              re_search w p (source c) = Inr (Some m)
              \<longrightarrow> cell_step w a pattern c ms = Inr (append_match a c ms))"
proof -
  have tg: "spec_tag_ok a c = tag_ok a c" for c
    using assms(1) by (cases "id_arg a") (auto simp: spec_tag_ok_def tag_ok_def truthy_str_def)
  have pt: "spec_pattern_ok w pattern c = pattern_ok w pattern c" if "c \<in> set cells" for c
  proof (cases pattern)
    case None
    then show ?thesis by (simp add: spec_pattern_ok_def pattern_ok_def truthy_str_def)
  next
    case (Some p)
    show ?thesis
    proof (cases "p = []")
      case True
      then have "\<exists>m. re_search w [] (source c) = Inr (Some m)"
        using assms(2) that Some by simp
      then have "spec_pattern_ok w pattern c"
        using True Some by (auto simp: spec_pattern_ok_def)
      then show ?thesis using True Some by (simp add: pattern_ok_def truthy_str_def)
    next
      case False
      then show ?thesis using Some by (simp add: spec_pattern_ok_def pattern_ok_def truthy_str_def)
    qed
  qed
  have nr: "\<forall>c \<in> set cells. type_ok a c \<and> tag_ok a c \<longrightarrow> \<not> search_raises w pattern c"
    using assms(3) by (simp add: tg)
  have f: "filter (\<lambda>c. type_ok a c \<and> spec_tag_ok a c \<and> spec_pattern_ok w pattern c) cells =
      retained w a pattern cells"
    unfolding retained_def by (rule filter_cong) (auto simp: tg pt)
  have 1: "scan_cells w a pattern cells [] =
           Inr (matches_of a
                  (filter (\<lambda>c. type_ok a c \<and> spec_tag_ok a c \<and> spec_pattern_ok w pattern c) cells))"
    using scan_cells_eq [OF nr, of "[]"] by (simp add: f)
  have 2: "\<forall>c ms. \<not> type_ok a c \<longrightarrow> cell_step w a pattern c ms = Inr ms"
    by (simp add: cell_step_reject_type)
  have 3: "\<forall>c ms. \<not> spec_tag_ok a c \<longrightarrow> cell_step w a pattern c ms = Inr ms"
    by (simp add: tg cell_step_reject_tag)
  have 4: "\<forall>c. id_arg a \<noteq> None \<and> nbgrader c = None \<longrightarrow> \<not> spec_tag_ok a c"
    by (auto simp: spec_tag_ok_def no_metadata_no_tag)
  have 5: "\<forall>c m t. id_arg a = Some t \<and> nbgrader c = Some m
              \<longrightarrow> spec_tag_ok a c = (m ''grade_id'' = Some t)"
    by (simp add: spec_tag_ok_def cell_tag_def)
  have 6: "\<forall>c \<in> set cells. \<forall>ms p. pattern = Some p \<and> type_ok a c \<and> spec_tag_ok a c \<and>
              re_search w p (source c) = Inr None
              \<longrightarrow> cell_step w a pattern c ms = Inr ms"
  proof (intro ballI allI impI)
    fix c ms p
    assume c: "c \<in> set cells"
      and h: "pattern = Some p \<and> type_ok a c \<and> spec_tag_ok a c \<and> re_search w p (source c) = Inr None"
    have "\<not> spec_pattern_ok w pattern c" using h by (simp add: spec_pattern_ok_def)
    then have np: "\<not> pattern_ok w pattern c" using pt [OF c] by simp
    have "\<not> search_raises w pattern c" using h by (simp add: search_raises_def)
    then show "cell_step w a pattern c ms = Inr ms"
      using h np by (simp add: cell_step_pattern tg)
  qed
  have 7: "\<forall>c ms p m. pattern = Some p \<and> type_ok a c \<and> spec_tag_ok a c \<and>
              re_search w p (source c) = Inr (Some m)
              \<longrightarrow> cell_step w a pattern c ms = Inr (append_match a c ms)"
  proof (intro allI impI)
    fix c ms p m
    assume h: "pattern = Some p \<and> type_ok a c \<and> spec_tag_ok a c \<and>
        re_search w p (source c) = Inr (Some m)"
    have "pattern_ok w pattern c" using h by (simp add: pattern_ok_def)
    moreover have "\<not> search_raises w pattern c" using h by (simp add: search_raises_def)
    ultimately show "cell_step w a pattern c ms = Inr (append_match a c ms)"
      using h by (simp add: cell_step_pattern tg)
  qed
  show ?thesis using 1 2 3 4 5 6 7 by blast
qed

text \<open>
  The theorem on the specification's example document: \<^verbatim>\<open>--id q1\<close> keeps the code cell,
  whose \<^verbatim>\<open>grade_id\<close> it is, and rejects the markdown cell, which has no tag; the pattern
  \<^verbatim>\<open>^#\<close> keeps the markdown cell; \<^verbatim>\<open>--code\<close> keeps the code cell; the empty pattern keeps
  both.
\<close>

theorem cell_filter_pipeline_witness:
  "scan_cells demo_world (no_args\<lparr>id_arg := Some ''q1''\<rparr>) None [q1_cell, md_cell] [] =
     Inr [''def f(): pass'']
   \<and> scan_cells demo_world no_args (Some ''^#'') [q1_cell, md_cell] [] = Inr [''# Q1'']
   \<and> scan_cells demo_world (no_args\<lparr>code := True\<rparr>) None [q1_cell, md_cell] [] =
       Inr [''def f(): pass'']
   \<and> scan_cells demo_world no_args (Some []) [q1_cell, md_cell] [] =
       Inr [''def f(): pass'', ''# Q1'']"
proof -
  let ?i = "no_args\<lparr>id_arg := Some ''q1''\<rparr>"
  let ?c = "no_args\<lparr>code := True\<rparr>"
  have i1: "id_arg ?i \<noteq> Some []" and n1: "id_arg no_args \<noteq> Some []" and c1: "id_arg ?c \<noteq> Some []"
    by (simp_all add: no_args_sel)
  have e0: "(None :: string option) = Some [] \<longrightarrow>
      (\<forall>c \<in> set [q1_cell, md_cell]. \<exists>m. re_search demo_world [] (source c) = Inr (Some m))"
    by simp
  have e1: "Some ''^#'' = Some [] \<longrightarrow>
      (\<forall>c \<in> set [q1_cell, md_cell]. \<exists>m. re_search demo_world [] (source c) = Inr (Some m))"
    by simp
  have e2: "Some [] = Some [] \<longrightarrow>
      (\<forall>c \<in> set [q1_cell, md_cell]. \<exists>m. re_search demo_world [] (source c) = Inr (Some m))"
    by (simp add: demo_world_io)
  have r0: "\<forall>c \<in> set [q1_cell, md_cell]. type_ok x c \<and> spec_tag_ok x c \<longrightarrow>
      \<not> search_raises demo_world None c" for x
    by (simp add: search_raises_def truthy_str_def)
  have r1: "\<forall>c \<in> set [q1_cell, md_cell]. type_ok no_args c \<and> spec_tag_ok no_args c \<longrightarrow>
      \<not> search_raises demo_world (Some ''^#'') c"
    by (simp add: search_raises_def demo_world_io)
  have r2: "\<forall>c \<in> set [q1_cell, md_cell]. type_ok no_args c \<and> spec_tag_ok no_args c \<longrightarrow>
      \<not> search_raises demo_world (Some []) c"
    by (simp add: search_raises_def truthy_str_def)
  have a: "scan_cells demo_world ?i None [q1_cell, md_cell] [] = Inr [''def f(): pass'']"
    using cell_filter_pipeline [OF i1 e0 r0, THEN conjunct1]
    by (simp add: pred_defs spec_tag_ok_def spec_pattern_ok_def no_args_sel cells_sel)
  have b: "scan_cells demo_world no_args (Some ''^#'') [q1_cell, md_cell] [] = Inr [''# Q1'']"
    using cell_filter_pipeline [OF n1 e1 r1, THEN conjunct1]
    by (simp add: pred_defs spec_tag_ok_def spec_pattern_ok_def no_args_sel cells_sel demo_world_io)
  have c: "scan_cells demo_world ?c None [q1_cell, md_cell] [] = Inr [''def f(): pass'']"
    using cell_filter_pipeline [OF c1 e0 r0, THEN conjunct1]
    by (simp add: pred_defs spec_tag_ok_def spec_pattern_ok_def no_args_sel cells_sel)
  have d: "scan_cells demo_world no_args (Some []) [q1_cell, md_cell] [] =
       Inr [''def f(): pass'', ''# Q1'']"
    using cell_filter_pipeline [OF n1 e2 r2, THEN conjunct1]
    by (simp add: pred_defs spec_tag_ok_def spec_pattern_ok_def no_args_sel cells_sel demo_world_io)
  show ?thesis using a b c d by blast
qed

text \<open>
  C2 as the specification states it fails for \<^verbatim>\<open>--id ''\<close>: a required tag is configured, the
  markdown cell has no \<^verbatim>\<open>nbgrader\<close> metadata and so no tag, and the script retains it all the
  same, because \<^verbatim>\<open>if args.id\<close> takes the empty string for no \<^verbatim>\<open>--id\<close>.
\<close>

theorem cell_filter_pipeline_counterexample:
  "id_arg (no_args\<lparr>id_arg := Some []\<rparr>) = Some []
   \<and> nbgrader md_cell = None
   \<and> \<not> spec_tag_ok (no_args\<lparr>id_arg := Some []\<rparr>) md_cell
   \<and> scan_cells demo_world (no_args\<lparr>id_arg := Some []\<rparr>) None [q1_cell, md_cell] [] =
       Inr [''def f(): pass'', ''# Q1'']"
  by (simp add: spec_tag_ok_def cell_step_def append_match_def wanted_cell_type_def truthy_str_def
      no_args_sel cells_sel)

subsection \<open>C3: the random sample\<close>




subsection \<open>C4: plain rendering\<close>

text \<open>
  C4, as amended. In content mode with \<^verbatim>\<open>--plain\<close>, a file with matches adds to the output
  each retained source followed by a line break, one after the other, and one empty line
  after the last: no header, no underline, no separator line and no escape code is added,
  and nothing stands between two sources. The retained sources are the ones the highlighted
  rendering retains, in the same order.
\<close>

theorem plain_content_output:
  assumes "plain a" and "\<not> tags a"
    and "nb_read w fn (nbformat a) = Inr cells"
    and "scan_cells w a pattern cells [] = Inr matches"
    and "matches \<noteq> []"
  shows "scan_file w a pattern fn out = (out @ concat (map (\<lambda>s. s @ nl) matches) @ nl, Inr ())
       \<and> scan_cells w (a\<lparr>plain := False\<rparr>) pattern cells [] = Inr matches"
  using assms by (simp add: scan_file_def print_hits_plain scan_cells_plain)

text \<open>The theorem on the explicit notebook of the sample world.\<close>

theorem plain_content_output_witness:
  "scan_file demo_world (no_args\<lparr>plain := True\<rparr>) None ''a.ipynb'' [] =
     (''def f(): pass'' @ nl @ ''# Q1'' @ nl @ nl, Inr ())
   \<and> scan_cells demo_world (no_args\<lparr>plain := True, plain := False\<rparr>) None [q1_cell, md_cell] [] =
       Inr [''def f(): pass'', ''# Q1'']"
proof -
  let ?a = "no_args\<lparr>plain := True\<rparr>"
  have h1: "plain ?a" and h2: "\<not> tags ?a" by (simp_all add: no_args_sel)
  have h3: "nb_read demo_world ''a.ipynb'' (nbformat ?a) = Inr [q1_cell, md_cell]"
    by (simp add: demo_world_io)
  have h4: "scan_cells demo_world ?a None [q1_cell, md_cell] [] = Inr [''def f(): pass'', ''# Q1'']"
    by (simp add: cell_step_def append_match_def wanted_cell_type_def truthy_str_def
        no_args_sel cells_sel)
  have h5: "[''def f(): pass'', ''# Q1''] \<noteq> []" by simp
  show ?thesis using plain_content_output [OF h1 h2 h3 h4 h5, of "[]"] by simp
qed

text \<open>
  C4 as the specification states it fails for a file with two matches: the two sources are
  printed on consecutive lines, with no blank line between them.
\<close>

theorem plain_content_output_counterexample:
  "fst (print_hits demo_world (no_args\<lparr>plain := True\<rparr>) None ''f.ipynb'' [''a'', ''b''] [])
      = ''a'' @ nl @ ''b'' @ nl @ nl
   \<and> blank_line_separated [''a'', ''b''] = ''a'' @ nl @ nl @ ''b'' @ nl
   \<and> fst (print_hits demo_world (no_args\<lparr>plain := True\<rparr>) None ''f.ipynb'' [''a'', ''b''] [])
      \<noteq> blank_line_separated [''a'', ''b'']
   \<and> \<not> contains (''a'' @ nl @ nl)
        (fst (print_hits demo_world (no_args\<lparr>plain := True\<rparr>) None ''f.ipynb'' [''a'', ''b''] []))"
  by (simp add: print_hits_plain no_args_def nl_def)

subsection \<open>C5: tags-only output\<close>

text \<open>
  C5. With \<^verbatim>\<open>--tags\<close> the matches are the tags of the retained cells that have one: a
  retained cell without a tag adds nothing, whether or not \<^verbatim>\<open>--id\<close> was given. On the
  specification's example, \<^verbatim>\<open>--tags\<close> alone yields \<^verbatim>\<open>["q1"]\<close>.
\<close>

theorem tags_only_output:
  assumes "tags a"
    and "\<forall>c \<in> set cells. type_ok a c \<and> tag_ok a c \<longrightarrow> \<not> search_raises w pattern c"
  shows "scan_cells w a pattern cells [] = Inr (List.map_filter cell_tag (retained w a pattern cells))
       \<and> (\<forall>c ms. cell_tag c = None \<longrightarrow> append_match a c ms = ms)
       \<and> scan_cells w (no_args\<lparr>tags := True\<rparr>) None [q1_cell, md_cell] [] = Inr [''q1'']"
proof -
  have 1: "scan_cells w a pattern cells [] = Inr (List.map_filter cell_tag (retained w a pattern cells))"
    using scan_cells_eq [OF assms(2), of "[]"] assms(1) by (simp add: matches_of_def)
  have 2: "\<forall>c ms. cell_tag c = None \<longrightarrow> append_match a c ms = ms"
    using assms(1) by (simp add: append_match_def)
  have 3: "scan_cells w (no_args\<lparr>tags := True\<rparr>) None [q1_cell, md_cell] [] = Inr [''q1'']"
    by (simp add: cell_step_def wanted_cell_type_def truthy_str_def append_match_def cell_tag_def
        no_args_def q1_cell_def md_cell_def)
  show ?thesis using 1 2 3 by blast
qed

text \<open>
  The theorem on the example document with the pattern \<^verbatim>\<open>^#\<close>: the markdown cell is
  retained, has no tag, and the matches are empty.
\<close>

theorem tags_only_output_witness:
  "scan_cells demo_world (no_args\<lparr>tags := True\<rparr>) (Some ''^#'') [q1_cell, md_cell] [] = Inr []
   \<and> scan_cells demo_world (no_args\<lparr>tags := True\<rparr>) None [q1_cell, md_cell] [] = Inr [''q1'']"
proof -
  let ?a = "no_args\<lparr>tags := True\<rparr>"
  have h1: "tags ?a" by simp
  have h2: "\<forall>c \<in> set [q1_cell, md_cell]. type_ok ?a c \<and> tag_ok ?a c \<longrightarrow>
      \<not> search_raises demo_world (Some ''^#'') c"
    by (simp add: search_raises_def demo_world_io)
  show ?thesis using tags_only_output [OF h1 h2]
    by (simp add: pred_defs no_args_sel cells_sel demo_world_io)
qed

subsection \<open>C6: files that cannot be read\<close>

text \<open>
  C6. When reading a file raises \<^verbatim>\<open>NotJSONError\<close> or \<^verbatim>\<open>UnicodeDecodeError\<close>, the text of the
  error and the path are printed on one line and the scan goes on with the next file. Any
  other exception of the reader ends the scan and is the result. The run is the scan of the
  file list, and when every file of the list either fails in one of the two handled ways
  or is scanned without an exception, in any mixture, the scan returns and the exit status
  is 0.
\<close>

theorem unreadable_file_skipped:
  shows "(nb_read w fn (nbformat a) = Inl e \<and> handled e \<longrightarrow>
            scan_files w a pattern (fn # fns) out =
              scan_files w a pattern fns (out @ exc_text e @ '' '' @ fn @ nl))
       \<and> (nb_read w fn (nbformat a) = Inl e \<and> \<not> handled e \<longrightarrow>
            scan_files w a pattern (fn # fns) out = (out, Inl e))
       \<and> (read_pattern w a = (out0, Inr typed) \<and> build_file_list w a out0 = (out1, Inr lst)
            \<longrightarrow> main w a = scan_files w a (effective_pattern a typed) lst out1)
       \<and> ((\<forall>f \<in> set lst. scans_clean w a pattern f)
            \<longrightarrow> snd (scan_files w a pattern lst out) = Inr ())
       \<and> (read_pattern w a = (out0, Inr typed) \<and> build_file_list w a out0 = (out1, Inr lst) \<and>
          (\<forall>f \<in> set lst. scans_clean w a (effective_pattern a typed) f)
            \<longrightarrow> exit_status (snd (main w a)) = 0)"
proof -
  have 1: "nb_read w fn (nbformat a) = Inl e \<and> handled e \<longrightarrow>
            scan_files w a pattern (fn # fns) out =
              scan_files w a pattern fns (out @ exc_text e @ '' '' @ fn @ nl)"
    by (simp add: scan_file_handled)
  have 2: "nb_read w fn (nbformat a) = Inl e \<and> \<not> handled e \<longrightarrow>
            scan_files w a pattern (fn # fns) out = (out, Inl e)"
    by (simp add: scan_file_unhandled)
  have 3: "read_pattern w a = (out0, Inr typed) \<and> build_file_list w a out0 = (out1, Inr lst)
            \<longrightarrow> main w a = scan_files w a (effective_pattern a typed) lst out1"
    by (simp add: main_def)
  have 4: "(\<forall>f \<in> set lst. scans_clean w a pattern f)
            \<longrightarrow> snd (scan_files w a pattern lst out) = Inr ()"
    by (simp add: scan_files_clean)
  have 5: "read_pattern w a = (out0, Inr typed) \<and> build_file_list w a out0 = (out1, Inr lst) \<and>
          (\<forall>f \<in> set lst. scans_clean w a (effective_pattern a typed) f)
            \<longrightarrow> exit_status (snd (main w a)) = 0"
    using scan_files_clean [of lst w a "effective_pattern a typed" out1]
    by (auto simp: main_def exit_status_def)
  show ?thesis using 1 2 3 4 5 by blast
qed

text \<open>
  The theorem at the sample world: \<^verbatim>\<open>nb/x.ipynb\<close> is not JSON and is skipped, and a file
  that is not there raises another error. The run with \<^verbatim>\<open>--plain\<close> over the three files of
  the sample world, of which the second is not JSON, prints the cells of the first, the
  error of the second and nothing for the third, and exits with 0.
\<close>

theorem unreadable_file_skipped_witness:
  "scan_files demo_world no_args None [''nb/x.ipynb'', ''a.ipynb''] [] =
     scan_files demo_world no_args None [''a.ipynb'']
       (''Notebook does not appear to be JSON nb/x.ipynb'' @ nl)
   \<and> scan_files demo_world no_args None [''zzz.ipynb'', ''a.ipynb''] [] =
       ([], Inl (OtherError ''FileNotFoundError''))
   \<and> main demo_world (demo_args\<lparr>plain := True\<rparr>) =
       (''def f(): pass'' @ nl @ ''# Q1'' @ nl @ nl @
        ''Notebook does not appear to be JSON nb/x.ipynb'' @ nl, Inr ())
   \<and> exit_status (snd (main demo_world (demo_args\<lparr>plain := True\<rparr>))) = 0"
proof -
  let ?a = "demo_args\<lparr>plain := True\<rparr>"
  let ?lst = "[''a.ipynb'', ''nb/x.ipynb'', ''submitted/harry/hello/hello.ipynb'']"
  have sel: "prompt ?a = False" "grep ?a = None" "tags ?a = False" "plain ?a = True"
      "id_arg ?a = None" "code ?a = False" "markdown ?a = False" "nbformat ?a = 4"
    by (simp_all add: demo_args_def no_args_def)
  have r: "read_pattern demo_world ?a = ([], Inr [])"
    by (simp add: read_pattern_def sel)
  have p: "effective_pattern ?a [] = None"
    by (simp add: effective_pattern_def truthy_str_def sel)
  have b: "build_file_list demo_world ?a [] = ([], Inr ?lst)"
    by (simp add: build_file_list_def filter_argv_files_def demo_world_sel demo_args_sel
        truthy_list_def truthy_int_def endswith_def path_join_def)
  have cells: "scan_cells demo_world ?a None [q1_cell, md_cell] [] =
      Inr [''def f(): pass'', ''# Q1'']"
    by (simp add: cell_step_def append_match_def wanted_cell_type_def truthy_str_def sel cells_sel)
  have empty: "scan_cells demo_world ?a None [] [] = Inr []" by simp
  have clean: "\<forall>f \<in> set ?lst. scans_clean demo_world ?a (effective_pattern ?a []) f"
    by (simp add: p scans_clean_def prints_clean_def colorized_def demo_world_io handled_def
        cells sel empty del: scan_cells.simps)
  have 1: "scan_files demo_world no_args None [''nb/x.ipynb'', ''a.ipynb''] [] =
     scan_files demo_world no_args None [''a.ipynb'']
       (''Notebook does not appear to be JSON nb/x.ipynb'' @ nl)"
    using unreadable_file_skipped [of demo_world "''nb/x.ipynb''" no_args
        "NotJSONError ''Notebook does not appear to be JSON''" None "[''a.ipynb'']" "[]"]
    by (simp add: demo_world_io handled_def exc_text_def)
  have 2: "scan_files demo_world no_args None [''zzz.ipynb'', ''a.ipynb''] [] =
       ([], Inl (OtherError ''FileNotFoundError''))"
    using unreadable_file_skipped [of demo_world "''zzz.ipynb''" no_args
        "OtherError ''FileNotFoundError''" None "[''a.ipynb'']" "[]"]
    by (simp add: demo_world_io handled_def)
  note T = unreadable_file_skipped [where w = demo_world and a = ?a and ?out0.0 = "[]"
        and typed = "[]" and ?out1.0 = "[]" and lst = ?lst]
  have m: "main demo_world ?a = scan_files demo_world ?a (effective_pattern ?a []) ?lst []"
    using T r b by blast
  have f1: "scan_file demo_world ?a None ''a.ipynb'' out =
      (out @ ''def f(): pass'' @ nl @ ''# Q1'' @ nl @ nl, Inr ())" for out
    unfolding scan_file_def
    by (simp add: demo_world_io cells sel print_hits_plain del: scan_cells.simps)
  have f2: "scan_file demo_world ?a None ''nb/x.ipynb'' out =
      (out @ ''Notebook does not appear to be JSON nb/x.ipynb'' @ nl, Inr ())" for out
    using scan_file_handled [of demo_world "''nb/x.ipynb''" ?a
        "NotJSONError ''Notebook does not appear to be JSON''" None out]
    by (simp add: demo_world_io handled_def exc_text_def)
  have f3: "scan_file demo_world ?a None ''submitted/harry/hello/hello.ipynb'' out =
      (out, Inr ())" for out
    unfolding scan_file_def
    by (simp add: demo_world_io empty del: scan_cells.simps)
  have s: "scan_files demo_world ?a None ?lst [] =
       (''def f(): pass'' @ nl @ ''# Q1'' @ nl @ nl @
        ''Notebook does not appear to be JSON nb/x.ipynb'' @ nl, Inr ())"
    by (simp add: f1 f2 f3)
  have 3: "main demo_world ?a =
       (''def f(): pass'' @ nl @ ''# Q1'' @ nl @ nl @
        ''Notebook does not appear to be JSON nb/x.ipynb'' @ nl, Inr ())"
    unfolding m p by (rule s)
  have 4: "exit_status (snd (main demo_world ?a)) = 0"
    using T r b clean by blast
  show ?thesis using 1 2 3 4 by blast
qed

subsection \<open>C7: a missing explicit file\<close>

text \<open>
  C7. When an explicit path is not a regular file, the run prints one line
  \<^verbatim>\<open>No such file: ...\<close> for every missing path, in the order given, and exits with status 1.
  Nothing else is printed (but the prompt, with \<^verbatim>\<open>--prompt\<close>), and the result does not depend
  on the notebook reader or on the directory walk: no file is scanned.
\<close>

theorem missing_explicit_file:
  assumes "\<exists>fn \<in> set (files a). \<not> isfile w fn" and "prompt a \<longrightarrow> stdin w \<noteq> None"
  shows "main w a = (fst (read_pattern w a) @ missing_report w a, Inl (SystemExit 1))
       \<and> exit_status (snd (main w a)) = 1
       \<and> (\<forall>r k. main (w\<lparr>nb_read := r, walk := k\<rparr>) a = main w a)"
proof -
  have m: "main w a = (fst (read_pattern w a) @ missing_report w a, Inl (SystemExit 1))"
    using main_build_fails [OF assms(2), of "missing_report w a" "SystemExit 1"]
      build_file_list_missing [OF assms(1)] by simp
  have "main (w\<lparr>nb_read := r, walk := k\<rparr>) a = main w a" for r k
  proof -
    let ?w = "w\<lparr>nb_read := r, walk := k\<rparr>"
    have 1: "\<exists>fn \<in> set (files a). \<not> isfile ?w fn" using assms(1) by simp
    have 2: "prompt a \<longrightarrow> stdin ?w \<noteq> None" using assms(2) by simp
    have "main ?w a = (fst (read_pattern ?w a) @ missing_report ?w a, Inl (SystemExit 1))"
      using main_build_fails [OF 2, of "missing_report ?w a" "SystemExit 1"]
        build_file_list_missing [OF 1] by simp
    then show ?thesis by (simp add: m read_pattern_def missing_report_def)
  qed
  then show ?thesis using m by (simp add: exit_status_def)
qed

text \<open>The theorem for three explicit paths of which the first and the last are missing.\<close>

theorem missing_explicit_file_witness:
  "main demo_world (no_args\<lparr>files := [''m1.ipynb'', ''a.ipynb'', ''m2.ipynb'']\<rparr>) =
     (''No such file: m1.ipynb'' @ nl @ ''No such file: m2.ipynb'' @ nl, Inl (SystemExit 1))
   \<and> exit_status (snd (main demo_world (no_args\<lparr>files := [''m1.ipynb'', ''a.ipynb'', ''m2.ipynb'']\<rparr>))) = 1"
proof -
  let ?a = "no_args\<lparr>files := [''m1.ipynb'', ''a.ipynb'', ''m2.ipynb'']\<rparr>"
  have h1: "\<exists>fn \<in> set (files ?a). \<not> isfile demo_world fn" by (simp add: demo_world_sel)
  have h2: "prompt ?a \<longrightarrow> stdin demo_world \<noteq> None" by (simp add: no_args_sel)
  show ?thesis using missing_explicit_file [OF h1 h2]
    by (simp add: read_pattern_def missing_report_def demo_world_sel no_args_sel exit_status_def)
qed

subsection \<open>C8: no files to scan\<close>

text \<open>
  C8. When there is no explicit path and the walks find nothing, \<^verbatim>\<open>build_file_list\<close> prints
  \<^verbatim>\<open>No files to scan\<close> and exits with status 1, whatever \<^verbatim>\<open>--random\<close> asks for: the test
  comes before the sample. The result does not depend on the notebook reader.
\<close>

theorem no_files_to_scan:
  assumes "set (files a) \<union> dir_files w a \<union> submitted_files w a = {}"
    and "prompt a \<longrightarrow> stdin w \<noteq> None"
  shows "build_file_list w a out = (out @ ''No files to scan'' @ nl, Inl (SystemExit 1))
       \<and> main w a = (fst (read_pattern w a) @ ''No files to scan'' @ nl, Inl (SystemExit 1))
       \<and> exit_status (snd (main w a)) = 1
       \<and> (\<forall>r. main (w\<lparr>nb_read := r\<rparr>) a = main w a)"
proof -
  have b: "build_file_list v a out' = (out' @ ''No files to scan'' @ nl, Inl (SystemExit 1))"
    if "walk v = walk w" for v out'
  proof -
    have e: "files a = []" using assms(1) by simp
    have u: "file_union v a = {}"
      using assms(1) that e
      by (auto simp: file_union_def explicit_files_def dir_files_def submitted_files_def
          split: option.splits if_splits)
    show ?thesis using build_file_list_set [of v a out'] e u by (simp add: print_line_def)
  qed
  have m: "main v a = (fst (read_pattern v a) @ ''No files to scan'' @ nl, Inl (SystemExit 1))"
    if "walk v = walk w" "stdin v = stdin w" for v
    using main_build_fails [of a v "''No files to scan'' @ nl" "SystemExit 1"] b [OF that(1)] assms(2) that(2)
    by simp
  have "main (w\<lparr>nb_read := r\<rparr>) a = main w a" for r
    using m [of "w\<lparr>nb_read := r\<rparr>"] m [of w] by (simp add: read_pattern_def)
  then show ?thesis using b [of w out] m [of w] by (simp add: exit_status_def)
qed

text \<open>
  The theorem for an empty directory with \<^verbatim>\<open>--random 5\<close>: the message and status 1, not the
  \<^verbatim>\<open>ValueError\<close> of a sample from an empty set.
\<close>

theorem no_files_to_scan_witness:
  "build_file_list demo_world (no_args\<lparr>dir := Some [''empty''], random_arg := Some 5\<rparr>) [] =
     (''No files to scan'' @ nl, Inl (SystemExit 1))
   \<and> exit_status (snd (main demo_world (no_args\<lparr>dir := Some [''empty''], random_arg := Some 5\<rparr>))) = 1"
proof -
  let ?a = "no_args\<lparr>dir := Some [''empty''], random_arg := Some 5\<rparr>"
  have h1: "set (files ?a) \<union> dir_files demo_world ?a \<union> submitted_files demo_world ?a = {}"
    by (simp add: dir_files_def submitted_files_def walked_hits_def demo_world_io no_args_sel
        truthy_list_def)
  have h2: "prompt ?a \<longrightarrow> stdin demo_world \<noteq> None" by (simp add: no_args_sel)
  show ?thesis using no_files_to_scan [OF h1 h2, of "[]"] by (simp add: exit_status_def)
qed

subsection \<open>C9: a file without matches\<close>

text \<open>
  C9. A file that is read and whose list of matches is empty leaves the output as it was,
  in every mode: scanning it first is the same as not scanning it.
\<close>

theorem no_match_no_output:
  assumes "nb_read w fn (nbformat a) = Inr cells" and "scan_cells w a pattern cells [] = Inr []"
  shows "scan_file w a pattern fn out = (out, Inr ())
       \<and> scan_files w a pattern (fn # fns) out = scan_files w a pattern fns out"
  using assms by (simp add: scan_file_def)

text \<open>The theorem on the explicit notebook of the sample world with an id no cell has.\<close>

theorem no_match_no_output_witness:
  "scan_file demo_world (no_args\<lparr>id_arg := Some ''q9''\<rparr>) None ''a.ipynb'' ''earlier output'' =
     (''earlier output'', Inr ())
   \<and> scan_files demo_world (no_args\<lparr>id_arg := Some ''q9''\<rparr>) None [''a.ipynb'', ''zzz.ipynb''] [] =
     scan_files demo_world (no_args\<lparr>id_arg := Some ''q9''\<rparr>) None [''zzz.ipynb''] []"
proof -
  let ?a = "no_args\<lparr>id_arg := Some ''q9''\<rparr>"
  have h1: "nb_read demo_world ''a.ipynb'' (nbformat ?a) = Inr [q1_cell, md_cell]"
    by (simp add: demo_world_io)
  have h2: "scan_cells demo_world ?a None [q1_cell, md_cell] [] = Inr []"
    by (simp add: cell_step_def wanted_cell_type_def truthy_str_def no_args_sel cells_sel)
  show ?thesis
    using no_match_no_output [OF h1 h2, of "''earlier output''" "[]"]
      no_match_no_output [OF h1 h2, of "[]" "[''zzz.ipynb'']"] by simp
qed

subsection \<open>C10: the empty pattern\<close>

text \<open>
  C10. With \<^verbatim>\<open>--grep ''\<close>, or with \<^verbatim>\<open>--prompt\<close> answered by an empty line, the pattern that
  the main block passes on is falsy: every cell passes the pattern filter, the cells
  retained are those that pass the type and tag filters, and \<^verbatim>\<open>colorized\<close> returns its text
  unchanged.
\<close>

theorem empty_pattern_is_no_pattern:
  assumes "(grep a = Some [] \<and> \<not> prompt a) \<or> (prompt a \<and> \<not> truthy_str (grep a) \<and> stdin w = Some [])"
    and "read_pattern w a = (out0, Inr typed)"
  shows "\<not> truthy_str (effective_pattern a typed)
       \<and> pattern_ok w (effective_pattern a typed) c
       \<and> cell_step w a (effective_pattern a typed) c ms =
           Inr (if type_ok a c \<and> tag_ok a c then append_match a c ms else ms)
       \<and> scan_cells w a (effective_pattern a typed) cells [] =
           Inr (matches_of a (filter (\<lambda>c. type_ok a c \<and> tag_ok a c) cells))
       \<and> colorized w a (effective_pattern a typed) text = Inr text"
proof -
  have f: "\<not> truthy_str (effective_pattern a typed)"
    using assms by (auto simp: effective_pattern_def read_pattern_def truthy_str_def)
  have p: "pattern_ok w (effective_pattern a typed) c" for c
    using f by (simp add: pattern_ok_def)
  have nr: "\<not> search_raises w (effective_pattern a typed) c" for c
    using f by (simp add: search_raises_def)
  have s: "cell_step w a (effective_pattern a typed) c ms =
           Inr (if type_ok a c \<and> tag_ok a c then append_match a c ms else ms)"
    using f by (auto simp: cell_step_def type_ok_def tag_ok_def Let_def)
  have "scan_cells w a (effective_pattern a typed) cells [] =
           Inr (matches_of a (retained w a (effective_pattern a typed) cells))"
    using scan_cells_eq [of cells a w "effective_pattern a typed" "[]"] nr by simp
  then have sc: "scan_cells w a (effective_pattern a typed) cells [] =
           Inr (matches_of a (filter (\<lambda>c. type_ok a c \<and> tag_ok a c) cells))"
    by (simp add: retained_def p)
  have c: "colorized w a (effective_pattern a typed) text = Inr text"
    using f by (simp add: colorized_def)
  show ?thesis using f p s sc c by blast
qed

text \<open>The theorem on the example document, once for each way of giving the empty pattern.\<close>

theorem empty_pattern_is_no_pattern_witness:
  "scan_cells demo_world (no_args\<lparr>grep := Some []\<rparr>) (effective_pattern (no_args\<lparr>grep := Some []\<rparr>) [])
      [q1_cell, md_cell] [] = Inr [''def f(): pass'', ''# Q1'']
   \<and> colorized demo_world (no_args\<lparr>grep := Some []\<rparr>) (effective_pattern (no_args\<lparr>grep := Some []\<rparr>) [])
       ''# Q1'' = Inr ''# Q1''
   \<and> scan_cells demo_world (no_args\<lparr>prompt := True\<rparr>) (effective_pattern (no_args\<lparr>prompt := True\<rparr>) [])
      [q1_cell, md_cell] [] = Inr [''def f(): pass'', ''# Q1'']
   \<and> colorized demo_world (no_args\<lparr>prompt := True\<rparr>) (effective_pattern (no_args\<lparr>prompt := True\<rparr>) [])
       ''# Q1'' = Inr ''# Q1''"
proof -
  let ?a = "no_args\<lparr>grep := Some []\<rparr>"
  let ?b = "no_args\<lparr>prompt := True\<rparr>"
  have a1: "(grep ?a = Some [] \<and> \<not> prompt ?a) \<or>
      (prompt ?a \<and> \<not> truthy_str (grep ?a) \<and> stdin demo_world = Some [])"
    by (simp add: no_args_sel)
  have a2: "read_pattern demo_world ?a = ([], Inr [])"
    by (simp add: read_pattern_def no_args_sel)
  have b1: "(grep ?b = Some [] \<and> \<not> prompt ?b) \<or>
      (prompt ?b \<and> \<not> truthy_str (grep ?b) \<and> stdin demo_world = Some [])"
    by (simp add: no_args_sel demo_world_io truthy_str_def)
  have b2: "read_pattern demo_world ?b = (''pattern: '', Inr [])"
    by (simp add: read_pattern_def demo_world_io)
  note A = empty_pattern_is_no_pattern [OF a1 a2, of q1_cell "[]" "[q1_cell, md_cell]" "''# Q1''"]
  note B = empty_pattern_is_no_pattern [OF b1 b2, of q1_cell "[]" "[q1_cell, md_cell]" "''# Q1''"]
  have m: "matches_of ?a (filter (\<lambda>c. type_ok ?a c \<and> tag_ok ?a c) [q1_cell, md_cell]) =
      [''def f(): pass'', ''# Q1'']"
    "matches_of ?b (filter (\<lambda>c. type_ok ?b c \<and> tag_ok ?b c) [q1_cell, md_cell]) =
      [''def f(): pass'', ''# Q1'']"
    by (simp_all add: pred_defs no_args_sel cells_sel)
  have A4: "scan_cells demo_world ?a (effective_pattern ?a []) [q1_cell, md_cell] [] =
      Inr [''def f(): pass'', ''# Q1'']"
    using A m(1) by presburger
  have B4: "scan_cells demo_world ?b (effective_pattern ?b []) [q1_cell, md_cell] [] =
      Inr [''def f(): pass'', ''# Q1'']"
    using B m(2) by presburger
  have A5: "colorized demo_world ?a (effective_pattern ?a []) ''# Q1'' = Inr ''# Q1''"
    using A by blast
  have B5: "colorized demo_world ?b (effective_pattern ?b []) ''# Q1'' = Inr ''# Q1''"
    using B by blast
  show ?thesis using A4 A5 B4 B5 by blast
qed

end
